theory Spec2Isabelle
  imports Complex_Main "HOL-Library.AList"
begin

section \<open>Data model\<close>

text \<open>
  Host identifiers, qubit identifiers and host names are Python strings. A qubit handle of
  the transport backend is opaque to the Network; it is modelled as a number.
\<close>

type_synonym hostid = string
type_synonym qid = string
type_synonym qubit = nat

text \<open>
  What the Network reads of a Host object: \<^verbatim>\<open>host.host_id\<close>,
  \<^verbatim>\<open>host.connections\<close> and \<^verbatim>\<open>host.cqc.name\<close>.
\<close>

record host =
  host_id :: hostid
  connections :: "hostid list"
  cqc_name :: string

text \<open>
  The exceptions that the code of the Network can raise: those of networkx, those of the
  Python built-ins (a missing dictionary key, an index out of range, a subscript or an
  attribute of \<^verbatim>\<open>None\<close>, \<^verbatim>\<open>list.index\<close> of a missing value) and the bare
  \<^verbatim>\<open>raise Exception\<close> of the dispatch loop.
\<close>

datatype error =
    NodeNotFound
  | NetworkXNoPath
  | ValueError
  | KeyError
  | TypeError
  | AttributeError
  | IndexError
  | Exception

datatype protocol = RELAY | REC_EPR | SEND_TELEPORT | OtherProtocol string

datatype payload_kind = QUANTUM | SIGNAL | CLASSICAL

datatype data_type = EPR

text \<open>
  An EPR entry as a host returns it (\<^verbatim>\<open>{'q': ..., 'q_id': ...}\<close>), and a qubit
  dictionary of a QUANTUM payload, which has the key \<^verbatim>\<open>'blocked'\<close> as well.
\<close>

record epr =
  q :: qubit
  q_id :: qid

record qubit_dict = epr +
  blocked :: bool

text \<open>
  A packet is a Python dictionary. The keys \<^verbatim>\<open>sender\<close>, \<^verbatim>\<open>receiver\<close>,
  \<^verbatim>\<open>protocol\<close>, \<^verbatim>\<open>payload_type\<close> and \<^verbatim>\<open>payload\<close> are always there;
  \<^verbatim>\<open>TTL\<close> and \<^verbatim>\<open>route\<close> only on a relay envelope, so they are optional.
  The payload is dynamically typed; the shapes that the Network touches are listed.
\<close>

datatype payload =
    NoPayload
  | QidPayload qid
  | EprData qubit qid hostid data_type
  | Qubits "qubit_dict list"
  | Inner packet
  | Content string
and packet =
  Packet (sender: hostid) (receiver: hostid) (protocol: protocol)
    (payload_type: payload_kind) (payload: payload) (TTL: "int option")
    (route: "hostid list option")

text \<open>The assignment \<^verbatim>\<open>packet['payload'] = v\<close>.\<close>

definition set_payload :: "payload \<Rightarrow> packet \<Rightarrow> packet" where
  "set_payload v p =
     Packet (sender p) (receiver p) (protocol p) (payload_type p) v (TTL p) (route p)"

text \<open>
  The subscript \<^verbatim>\<open>payload['q_id']\<close>: the value under the key for the two
  dictionaries that have it, \<^verbatim>\<open>TypeError\<close> for \<^verbatim>\<open>None\<close>, a list and a
  string, \<^verbatim>\<open>KeyError\<close> for a nested packet (a dictionary without that key).
\<close>

fun payload_q_id :: "payload \<Rightarrow> error + qid" where
  "payload_q_id NoPayload = Inl TypeError"
| "payload_q_id (QidPayload i) = Inr i"
| "payload_q_id (EprData u i n t) = Inr i"
| "payload_q_id (Qubits qs) = Inl TypeError"
| "payload_q_id (Inner p) = Inl KeyError"
| "payload_q_id (Content s) = Inl TypeError"

subsection \<open>The topology: a directed graph\<close>

text \<open>
  \<^verbatim>\<open>nx.DiGraph\<close> keeps its nodes and, for every edge, one attribute dictionary, in
  order of insertion. Here: the list of nodes and an association list from the edge
  \<open>(u, v)\<close> to its weight.
\<close>

record digraph =
  nodes :: "hostid list"
  edges :: "((hostid \<times> hostid) \<times> int) list"

definition DiGraph :: digraph where
  "DiGraph = \<lparr>nodes = [], edges = []\<rparr>"

definition add_node :: "hostid \<Rightarrow> digraph \<Rightarrow> digraph" where
  "add_node n G = (if n \<in> set (nodes G) then G else G\<lparr>nodes := nodes G @ [n]\<rparr>)"

definition has_edge :: "digraph \<Rightarrow> hostid \<Rightarrow> hostid \<Rightarrow> bool" where
  "has_edge G u v = ((u, v) \<in> set (map fst (edges G)))"

text \<open>
  \<^verbatim>\<open>add_edges_from\<close> adds both end points as nodes when they are missing, and sets the
  attribute of the edge, replacing the attribute of an edge that is already there.
\<close>

fun add_edges_from :: "(hostid \<times> hostid \<times> int) list \<Rightarrow> digraph \<Rightarrow> digraph" where
  "add_edges_from [] G = G"
| "add_edges_from ((u, v, w) # es) G =
     add_edges_from es
       ((add_node v (add_node u G))\<lparr>edges := AList.update (u, v) w (edges G)\<rparr>)"

definition successors :: "digraph \<Rightarrow> hostid \<Rightarrow> hostid list" where
  "successors G u = map (snd \<circ> fst) (filter (\<lambda>e. fst (fst e) = u) (edges G))"

text \<open>Every identifier that the graph mentions.\<close>

definition graph_ids :: "digraph \<Rightarrow> hostid set" where
  "graph_ids G = set (nodes G) \<union> fst ` fst ` set (edges G) \<union> snd ` fst ` set (edges G)"

subsection \<open>The default routing algorithm\<close>

text \<open>
  Modelled from the spec: the default routing function is \<^verbatim>\<open>nx.shortest_path\<close> of the
  networkx library, which is not among the sources. The spec gives it as the unweighted
  shortest path over the directed graph, failing when either end point is absent from the
  topology or when no path exists. It is modelled as a breadth-first search: the queue
  holds the paths found so far, each reversed, and \<open>visited\<close> the nodes reached.
\<close>

function bfs :: "digraph \<Rightarrow> hostid \<Rightarrow> hostid list list \<Rightarrow> hostid list \<Rightarrow> hostid list option" where
  "bfs G target [] visited = None"
| "bfs G target ([] # queue) visited = bfs G target queue visited"
| "bfs G target ((u # p) # queue) visited =
     (if u = target then Some (rev (u # p))
      else
        (let new = remdups (filter (\<lambda>v. v \<notin> set visited) (successors G u))
         in bfs G target (queue @ map (\<lambda>v. v # u # p) new) (new @ visited)))"
  by pat_completeness auto
termination
proof (relation "measures [\<lambda>(G, t, qu, vis). card (graph_ids G - set vis),
                           \<lambda>(G, t, qu, vis). length qu]", goal_cases)
  case 1
  show ?case by simp
next
  case (2 G target queue visited)
  show ?case by simp
next
  case (3 G target u p queue visited new)
  have fin: "finite (graph_ids G)"
    by (simp add: graph_ids_def)
  have sub: "set new \<subseteq> graph_ids G - set visited"
    using 3(2) by (force simp: successors_def graph_ids_def)
  show ?case
  proof (cases "new = []")
    case True
    then show ?thesis by simp
  next
    case False
    then obtain v where v: "v \<in> set new" by (cases new) auto
    have "graph_ids G - set (new @ visited) \<subset> graph_ids G - set visited"
      using v sub by auto
    then have "card (graph_ids G - set (new @ visited)) < card (graph_ids G - set visited)"
      using fin by (intro psubset_card_mono) auto
    then show ?thesis by simp
  qed
qed

definition shortest_path :: "digraph \<Rightarrow> hostid \<Rightarrow> hostid \<Rightarrow> error + hostid list" where
  "shortest_path G source target =
     (if source \<notin> set (nodes G) \<or> target \<notin> set (nodes G) then Inl NodeNotFound
      else
        (case bfs G target [[source]] [source] of
           None \<Rightarrow> Inl NetworkXNoPath
         | Some p \<Rightarrow> Inr p))"

subsection \<open>The Network object\<close>

record Network =
  ARP :: "hostid \<rightharpoonup> host"
  network :: digraph
  routing_algo :: "digraph \<Rightarrow> hostid \<Rightarrow> hostid \<Rightarrow> error + hostid list"
  use_hop_by_hop :: bool
  packet_queue :: "packet list"
  stop_thread :: bool
  delay :: rat

text \<open>The state that \<^verbatim>\<open>__init__\<close> sets up.\<close>

definition Network_init :: Network where
  "Network_init =
     \<lparr>ARP = Map.empty, network = DiGraph, routing_algo = shortest_path,
      use_hop_by_hop = True, packet_queue = [], stop_thread = False, delay = 1 / 2\<rparr>"

definition set_routing_algo :: "(digraph \<Rightarrow> hostid \<Rightarrow> hostid \<Rightarrow> error + hostid list) \<Rightarrow> Network \<Rightarrow> Network" where
  "set_routing_algo algorithm nw = nw\<lparr>routing_algo := algorithm\<rparr>"

definition send :: "packet \<Rightarrow> Network \<Rightarrow> Network" where
  "send packet nw = nw\<lparr>packet_queue := packet_queue nw @ [packet]\<rparr>"

definition stop :: "Network \<Rightarrow> Network" where
  "stop nw = nw\<lparr>stop_thread := True\<rparr>"

section \<open>Topology and address table\<close>

text \<open>The loop of \<^verbatim>\<open>_update_network_graph\<close> over the connections of the host.\<close>

fun update_edges :: "hostid \<Rightarrow> hostid list \<Rightarrow> digraph \<Rightarrow> digraph" where
  "update_edges h [] G = G"
| "update_edges h (connection # cs) G =
     (let G1 = (if \<not> has_edge G h connection
                then add_edges_from [(h, connection, 1)] G else G);
          G2 = (if \<not> has_edge G1 connection h
                then add_edges_from [(connection, h, 1)] G1 else G1)
      in update_edges h cs G2)"

definition update_network_graph :: "host \<Rightarrow> Network \<Rightarrow> Network" where
  "update_network_graph host nw =
     nw\<lparr>network := update_edges (host_id host) (connections host)
                      (add_node (host_id host) (network nw))\<rparr>"

definition add_host :: "host \<Rightarrow> Network \<Rightarrow> Network" where
  "add_host host nw = update_network_graph host (nw\<lparr>ARP := (ARP nw)(host_id host \<mapsto> host)\<rparr>)"

definition remove_host :: "host \<Rightarrow> Network \<Rightarrow> Network" where
  "remove_host host nw =
     (if host_id host \<in> dom (ARP nw) then nw\<lparr>ARP := (ARP nw)(host_id host := None)\<rparr>
      else nw)"

definition get_host :: "Network \<Rightarrow> hostid \<Rightarrow> host option" where
  "get_host nw h = (if h \<notin> dom (ARP nw) then None else ARP nw h)"

definition get_host_name :: "Network \<Rightarrow> hostid \<Rightarrow> string option" where
  "get_host_name nw h = (if h \<notin> dom (ARP nw) then None else map_option cqc_name (ARP nw h))"

definition get_route :: "Network \<Rightarrow> hostid \<Rightarrow> hostid \<Rightarrow> error + hostid list" where
  "get_route nw source dest = routing_algo nw (network nw) source dest"

section \<open>The peers and the backend, as the Network sees them\<close>

text \<open>
  Hosts, their transport backend and the thread supervisor are outside the Network. Every
  call that the Network makes on them is recorded, in order, as an event; the packet
  handed to \<^verbatim>\<open>rec_packet\<close> is recorded as the payload value \<open>Inner packet\<close>, since the
  last hop of a relay hands over whatever the envelope carried.
\<close>

datatype event =
    SendEpr hostid hostid qid bool
  | GetEpr hostid hostid
  | AddEpr hostid hostid qubit "qid option"
  | CreateEPR hostid "string option"
  | RecPacket hostid payload
  | SendQubit hostid qubit "string option"
  | RecvQubit hostid
  | AddDataQubit hostid hostid qubit qid
  | SpawnSwap hostid hostid "hostid list" qid

text \<open>
  The lines written by \<^verbatim>\<open>Logger.error\<close>. The text of \<^verbatim>\<open>str(e)\<close> is left to the
  exception. The informational lines (\<^verbatim>\<open>Logger.log\<close>, \<^verbatim>\<open>Logger.debug\<close>) are not
  recorded.
\<close>

datatype log_entry =
    LogError string
  | LogErrorInNetwork error

record io =
  trace :: "event list"
  errlog :: "log_entry list"

definition emit :: "event \<Rightarrow> io \<Rightarrow> io" where
  "emit e s = s\<lparr>trace := trace s @ [e]\<rparr>"

definition log_error :: "log_entry \<Rightarrow> io \<Rightarrow> io" where
  "log_error l s = s\<lparr>errlog := errlog s @ [l]\<rparr>"

text \<open>
  What the calls on a host return is up to the host: each answer is a parameter, a
  function of the calls made so far and of the arguments of the call.
\<close>

record env =
  host_get_epr :: "event list \<Rightarrow> hostid \<Rightarrow> hostid \<Rightarrow> epr option"
  host_add_epr :: "event list \<Rightarrow> hostid \<Rightarrow> hostid \<Rightarrow> qubit \<Rightarrow> qid option \<Rightarrow> qid"
  cqc_createEPR :: "event list \<Rightarrow> hostid \<Rightarrow> string option \<Rightarrow> qubit"
  cqc_recvQubit :: "event list \<Rightarrow> hostid \<Rightarrow> qubit"
  host_shares_epr :: "hostid \<Rightarrow> hostid \<Rightarrow> bool"


section \<open>Queries\<close>

text \<open>
  \<^verbatim>\<open>shares_epr\<close>: a method call on \<^verbatim>\<open>None\<close> raises \<^verbatim>\<open>AttributeError\<close>, and
  Python's \<^verbatim>\<open>and\<close> evaluates its right operand only when the left one is true.
\<close>

definition shares_epr :: "env \<Rightarrow> Network \<Rightarrow> hostid \<Rightarrow> hostid \<Rightarrow> error + bool" where
  "shares_epr ev nw sndr rcvr =
     (let host_sender = get_host nw sndr;
          host_receiver = get_host nw rcvr
      in case host_sender of
           None \<Rightarrow> Inl AttributeError
         | Some hs \<Rightarrow>
             if \<not> host_shares_epr ev sndr rcvr then Inr False
             else
               (case host_receiver of
                  None \<Rightarrow> Inl AttributeError
                | Some hr \<Rightarrow> Inr (host_shares_epr ev rcvr sndr)))"

section \<open>The packet codec\<close>

text \<open>
  \<^verbatim>\<open>_encode\<close>. The subscripts \<^verbatim>\<open>route[1]\<close> and \<^verbatim>\<open>route[2]\<close> raise
  \<^verbatim>\<open>IndexError\<close> on a route that is too short; \<^verbatim>\<open>route[-1]\<close> is the last element.
\<close>

definition encode :: "Network \<Rightarrow> hostid list \<Rightarrow> packet \<Rightarrow> int \<Rightarrow> error + packet" where
  "encode nw rt pl ttl =
     (if length rt < 2 then Inl IndexError
      else if use_hop_by_hop nw then
        Inr (Packet (rt ! 1) (last rt) RELAY SIGNAL (Inner pl) (Some ttl) (Some rt))
      else if length rt < 3 then Inl IndexError
      else Inr (Packet (rt ! 1) (rt ! 2) RELAY SIGNAL (Inner pl) (Some ttl) (Some rt)))"

text \<open>The default value of the parameter \<^verbatim>\<open>ttl\<close>.\<close>

definition encode_default_ttl :: int where
  "encode_default_ttl = 10"

section \<open>The swap orchestrator\<close>





section \<open>The quantum relay mover\<close>

text \<open>
  \<^verbatim>\<open>transfer_qubits\<close> over a list of qubit dictionaries: each qubit is sent by the
  backend of \<^verbatim>\<open>s\<close>, received by the backend of \<^verbatim>\<open>r\<close>, and its dictionary is
  updated in place. \<^verbatim>\<open>self.ARP[s]\<close> raises \<^verbatim>\<open>KeyError\<close> for a missing key.
\<close>

fun transfer_list :: "env \<Rightarrow> Network \<Rightarrow> hostid \<Rightarrow> hostid \<Rightarrow> bool \<Rightarrow> hostid option \<Rightarrow> qubit_dict list \<Rightarrow> io \<Rightarrow> (error + qubit_dict list) \<times> io" where
  "transfer_list ev nw sd rc store original_sender [] s = (Inr [], s)"
| "transfer_list ev nw sd rc store original_sender (qd # qds) s =
     (case ARP nw sd of
        None \<Rightarrow> (Inl KeyError, s)
      | Some hs \<Rightarrow>
          (let s1 = emit (SendQubit sd (q qd) (get_host_name nw rc)) s
           in case ARP nw rc of
                None \<Rightarrow> (Inl KeyError, s1)
              | Some hr \<Rightarrow>
                  (let qn = cqc_recvQubit ev (trace s1) rc;
                       s2 = emit (RecvQubit rc) s1;
                       qd' = qd\<lparr>q := qn, blocked := False\<rparr>;
                       s3 = (case original_sender of
                               None \<Rightarrow> s2
                             | Some os \<Rightarrow>
                                 if store then emit (AddDataQubit rc os qn (q_id qd')) s2
                                 else s2)
                   in case transfer_list ev nw sd rc store original_sender qds s3 of
                        (Inl e, s4) \<Rightarrow> (Inl e, s4)
                      | (Inr qds', s4) \<Rightarrow> (Inr (qd' # qds'), s4))))"

text \<open>
  The payload of a QUANTUM packet is meant to be a list of qubit dictionaries. On any
  other value the first statement of the loop body raises: \<^verbatim>\<open>enumerate(None)\<close> is a
  \<^verbatim>\<open>TypeError\<close>, \<^verbatim>\<open>qubits[0]\<close> on a dictionary a \<^verbatim>\<open>KeyError\<close>, and
  \<^verbatim>\<open>qubits[0]['q_id']\<close> on a string a \<^verbatim>\<open>TypeError\<close>, unless the string is empty and
  the loop body never runs.
\<close>

fun transfer_qubits :: "env \<Rightarrow> Network \<Rightarrow> hostid \<Rightarrow> hostid \<Rightarrow> bool \<Rightarrow> hostid option \<Rightarrow> payload \<Rightarrow> io \<Rightarrow> (error + payload) \<times> io" where
  "transfer_qubits ev nw sd rc store original_sender (Qubits qds) s =
     (case transfer_list ev nw sd rc store original_sender qds s of
        (Inl e, s1) \<Rightarrow> (Inl e, s1)
      | (Inr qds', s1) \<Rightarrow> (Inr (Qubits qds'), s1))"
| "transfer_qubits ev nw sd rc store original_sender NoPayload s = (Inl TypeError, s)"
| "transfer_qubits ev nw sd rc store original_sender (Content c) s =
     (if c = [] then (Inr (Content c), s) else (Inl TypeError, s))"
| "transfer_qubits ev nw sd rc store original_sender (QidPayload i) s = (Inl KeyError, s)"
| "transfer_qubits ev nw sd rc store original_sender (EprData u i n t) s = (Inl KeyError, s)"
| "transfer_qubits ev nw sd rc store original_sender (Inner p) s = (Inl KeyError, s)"

text \<open>
  The \<^verbatim>\<open>while i < len(route) - 1\<close> loop of \<^verbatim>\<open>_route_quantum_info\<close>; on the last
  hop (\<^verbatim>\<open>len(route[i:]) == 2\<close>) the qubits are stored at the receiver as data qubits
  of \<^verbatim>\<open>route[0]\<close>.
\<close>

fun quantum_hops :: "env \<Rightarrow> Network \<Rightarrow> hostid list \<Rightarrow> payload \<Rightarrow> nat list \<Rightarrow> io \<Rightarrow> (error + payload) \<times> io" where
  "quantum_hops ev nw rt qubits [] s = (Inr qubits, s)"
| "quantum_hops ev nw rt qubits (i # is) s =
     (case (if length rt - i \<noteq> 2
            then transfer_qubits ev nw (rt ! i) (rt ! (i + 1)) False None qubits s
            else transfer_qubits ev nw (rt ! i) (rt ! (i + 1)) True (Some (rt ! 0)) qubits s) of
        (Inl e, s1) \<Rightarrow> (Inl e, s1)
      | (Inr qubits', s1) \<Rightarrow> quantum_hops ev nw rt qubits' is s1)"

definition route_quantum_info :: "env \<Rightarrow> Network \<Rightarrow> hostid \<Rightarrow> hostid \<Rightarrow> payload \<Rightarrow> io \<Rightarrow> (error + payload) \<times> io" where
  "route_quantum_info ev nw sndr rcvr qubits s =
     (case get_route nw sndr rcvr of
        Inl e \<Rightarrow> (Inl e, s)
      | Inr rt \<Rightarrow> quantum_hops ev nw rt qubits [0..<length rt - 1] s)"

section \<open>The dispatch loop\<close>

text \<open>
  The choice of the route inside the \<^verbatim>\<open>try\<close> block. In source-routed mode a relay
  envelope carries its route: \<^verbatim>\<open>packet['route']\<close> raises \<^verbatim>\<open>KeyError\<close> when the
  key is missing, \<^verbatim>\<open>full_route.index(sender)\<close> raises \<^verbatim>\<open>ValueError\<close> when the
  sender is not on it, and the slice starts at the first occurrence of the sender.
\<close>

definition compute_route :: "Network \<Rightarrow> packet \<Rightarrow> error + hostid list" where
  "compute_route nw packet =
     (if use_hop_by_hop nw then get_route nw (sender packet) (receiver packet)
      else if protocol packet = RELAY then
        (case route packet of
           None \<Rightarrow> Inl KeyError
         | Some full_route \<Rightarrow>
             if sender packet \<in> set full_route
             then Inr (dropWhile (\<lambda>x. x \<noteq> sender packet) full_route)
             else Inl ValueError)
      else get_route nw (sender packet) (receiver packet))"

text \<open>
  A \<^verbatim>\<open>REC_EPR\<close> request between neighbours: the sender's backend creates the pair,
  the sender files it, and the payload becomes the identifier that filing returned.
\<close>

definition rec_epr_direct :: "env \<Rightarrow> Network \<Rightarrow> packet \<Rightarrow> io \<Rightarrow> (error + packet) \<times> io" where
  "rec_epr_direct ev nw packet s =
     (let host_sender = get_host nw (sender packet);
          receiver_name = get_host_name nw (receiver packet)
      in case host_sender of
           None \<Rightarrow> (Inl AttributeError, s)
         | Some hs \<Rightarrow>
             (let qb = cqc_createEPR ev (trace s) (sender packet) receiver_name;
                  s1 = emit (CreateEPR (sender packet) receiver_name) s
              in if payload packet \<noteq> NoPayload then
                   (case payload_q_id (payload packet) of
                      Inl e \<Rightarrow> (Inl e, s1)
                    | Inr i \<Rightarrow>
                        (let qi = host_add_epr ev (trace s1) (sender packet) (receiver packet) qb (Some i);
                             s2 = emit (AddEpr (sender packet) (receiver packet) qb (Some i)) s1
                         in (Inr (set_payload (QidPayload qi) packet), s2)))
                 else
                   (let qi = host_add_epr ev (trace s1) (sender packet) (receiver packet) qb None;
                        s2 = emit (AddEpr (sender packet) (receiver packet) qb None) s1
                    in (Inr (set_payload (QidPayload qi) packet), s2))))"

text \<open>The branch \<^verbatim>\<open>len(route) == 2\<close>.\<close>

definition deliver :: "env \<Rightarrow> Network \<Rightarrow> packet \<Rightarrow> io \<Rightarrow> error option \<times> io" where
  "deliver ev nw packet s =
     (if protocol packet \<noteq> RELAY then
        (case (if protocol packet = REC_EPR then rec_epr_direct ev nw packet s
               else (Inr packet, s)) of
           (Inl e, s1) \<Rightarrow> (Some e, s1)
         | (Inr packet', s1) \<Rightarrow>
             (case ARP nw (receiver packet) of
                None \<Rightarrow> (Some KeyError, s1)
              | Some hr \<Rightarrow> (None, emit (RecPacket (receiver packet) (Inner packet')) s1)))
      else
        (case ARP nw (receiver packet) of
           None \<Rightarrow> (Some KeyError, s)
         | Some hr \<Rightarrow> (None, emit (RecPacket (receiver packet) (payload packet)) s)))"

text \<open>
  The branch \<^verbatim>\<open>len(route) > 2\<close>. The swap runs in a thread of its own, so the loop
  only records that it started one; the encoder is called without a \<^verbatim>\<open>ttl\<close>.
\<close>

definition forward :: "env \<Rightarrow> Network \<Rightarrow> packet \<Rightarrow> hostid list \<Rightarrow> io \<Rightarrow> error option \<times> io" where
  "forward ev nw packet rt s =
     (if protocol packet = REC_EPR then
        (case payload_q_id (payload packet) of
           Inl e \<Rightarrow> (Some e, s)
         | Inr qi \<Rightarrow> (None, emit (SpawnSwap (sender packet) (receiver packet) rt qi) s))
      else
        (case encode nw rt packet encode_default_ttl of
           Inl e \<Rightarrow> (Some e, s)
         | Inr network_packet \<Rightarrow>
             (case ARP nw (rt ! 1) of
                None \<Rightarrow> (Some KeyError, s)
              | Some h \<Rightarrow> (None, emit (RecPacket (rt ! 1) (Inner network_packet)) s))))"

text \<open>The body of the \<^verbatim>\<open>try\<close> block: \<open>Some e\<close> is the exception it raises.\<close>

definition try_block :: "env \<Rightarrow> Network \<Rightarrow> packet \<Rightarrow> io \<Rightarrow> error option \<times> io" where
  "try_block ev nw packet s =
     (case compute_route nw packet of
        Inl e \<Rightarrow> (Some e, s)
      | Inr rt \<Rightarrow>
          if length rt < 2 then (Some Exception, s)
          else if length rt = 2 then deliver ev nw packet s
          else forward ev nw packet rt s)"

text \<open>The three \<^verbatim>\<open>except\<close> clauses, in their order; the last one takes every exception.\<close>

fun except_handler :: "error \<Rightarrow> io \<Rightarrow> io" where
  "except_handler NodeNotFound s =
     log_error (LogError ''route couldn't be calculated, node doesn't exist'') s"
| "except_handler ValueError s =
     log_error (LogError ''route couldn't be calculated, value error'') s"
| "except_handler e s = log_error (LogErrorInNetwork e) s"

text \<open>
  The statement ahead of the \<^verbatim>\<open>try\<close> block: a quantum payload is routed first, which
  updates the qubit dictionaries of the payload in place.
\<close>

definition quantum_prepass :: "env \<Rightarrow> Network \<Rightarrow> packet \<Rightarrow> io \<Rightarrow> (error + payload) \<times> io" where
  "quantum_prepass ev nw packet s =
     (if payload_type packet = QUANTUM
      then route_quantum_info ev nw (sender packet) (receiver packet) (payload packet) s
      else (Inr (payload packet), s))"

text \<open>
  One packet taken from the queue. An exception of the quantum routing is raised outside
  the \<^verbatim>\<open>try\<close> block and leaves the loop body; an exception of the \<^verbatim>\<open>try\<close> block
  is handled. The first component of the result is the exception that leaves the loop
  body, if any.
\<close>

definition process_packet :: "env \<Rightarrow> Network \<Rightarrow> packet \<Rightarrow> io \<Rightarrow> error option \<times> io" where
  "process_packet ev nw packet s =
     (case quantum_prepass ev nw packet s of
        (Inl e, s1) \<Rightarrow> (Some e, s1)
      | (Inr pl, s1) \<Rightarrow>
          (case try_block ev nw (set_payload pl packet) s1 of
             (Some e, s2) \<Rightarrow> (None, except_handler e s2)
           | (None, s2) \<Rightarrow> (None, s2)))"

text \<open>
  \<^verbatim>\<open>_process_queue\<close>, run on the packets that are in the queue. The worker ends when
  the stop flag is set (\<open>Stopped\<close>) or when an exception leaves the loop body
  (\<open>Crashed\<close>); with an empty queue it is alive and waits for the next packet (\<open>Idle\<close>).
\<close>

datatype worker = Stopped | Idle | Crashed error

function process_queue :: "env \<Rightarrow> Network \<Rightarrow> io \<Rightarrow> worker \<times> Network \<times> io" where
  "process_queue ev nw s =
     (if stop_thread nw then (Stopped, nw, s)
      else
        (case packet_queue nw of
           [] \<Rightarrow> (Idle, nw, s)
         | packet # rest \<Rightarrow>
             (case process_packet ev (nw\<lparr>packet_queue := rest\<rparr>) packet s of
                (Some e, s1) \<Rightarrow> (Crashed e, nw\<lparr>packet_queue := rest\<rparr>, s1)
              | (None, s1) \<Rightarrow> process_queue ev (nw\<lparr>packet_queue := rest\<rparr>) s1)))"
  by pat_completeness auto
termination
  by (relation "measure (\<lambda>(ev, nw, s). length (packet_queue nw))") auto

declare process_queue.simps [simp del]


section \<open>Example networks\<close>

text \<open>
  Three hosts on a line, \<open>A - B - C\<close>, registered in that order on a fresh Network; a
  fourth host \<open>D\<close> that is never registered; and hosts that answer every call at once.
\<close>

definition host_A :: host where
  "host_A = \<lparr>host_id = ''A'', connections = [''B''], cqc_name = ''Alice''\<rparr>"

definition host_B :: host where
  "host_B = \<lparr>host_id = ''B'', connections = [''A'', ''C''], cqc_name = ''Bob''\<rparr>"

definition host_C :: host where
  "host_C = \<lparr>host_id = ''C'', connections = [''B''], cqc_name = ''Charlie''\<rparr>"

definition line_net :: Network where
  "line_net = add_host host_C (add_host host_B (add_host host_A Network_init))"

definition source_routed_net :: Network where
  "source_routed_net = line_net\<lparr>use_hop_by_hop := False\<rparr>"

definition ready_env :: env where
  "ready_env =
     \<lparr>host_get_epr = (\<lambda>tr h partner. Some \<lparr>q = length tr, q_id = ''id-1''\<rparr>),
      host_add_epr = (\<lambda>tr h partner qb given.
         (case given of None \<Rightarrow> ''fresh-id'' | Some i \<Rightarrow> i)),
      cqc_createEPR = (\<lambda>tr h name. length tr),
      cqc_recvQubit = (\<lambda>tr h. length tr),
      host_shares_epr = (\<lambda>a b. False)\<rparr>"

text \<open>
  Hosts whose pairs have a cause. An event links a host to a partner when it is a creation
  between the two, or a packet handed on for the host that names the partner as its
  \<^verbatim>\<open>node\<close>.
\<close>

fun links :: "hostid \<Rightarrow> hostid \<Rightarrow> event \<Rightarrow> bool" where
  "links h partner (SendEpr a b i sw) = ((a = partner \<and> b = h) \<or> (a = h \<and> b = partner))"
| "links h partner (RecPacket x (Inner pk)) =
     (receiver pk = h \<and> (case payload pk of EprData qb i node t \<Rightarrow> node = partner | _ \<Rightarrow> False))"
| "links h partner e = False"


definition io_init :: io where
  "io_init = \<lparr>trace = [], errlog = []\<rparr>"

definition inner_packet :: packet where
  "inner_packet = Packet ''A'' ''C'' (OtherProtocol ''SEND_CLASSICAL'') CLASSICAL (Content ''hello'') None None"

text \<open>
  Packets from \<open>A\<close>: a qubit and a message for the unknown host \<open>D\<close>, a message for
  the neighbour \<open>B\<close>, a message for \<open>A\<close> itself, and a request for a pair with \<open>B\<close>.
\<close>

definition quantum_to_D :: packet where
  "quantum_to_D = Packet ''A'' ''D'' (OtherProtocol ''SEND_QUBIT'') QUANTUM
     (Qubits [\<lparr>q = 0, q_id = ''q-1'', blocked = False\<rparr>]) None None"

definition classical_to_D :: packet where
  "classical_to_D = Packet ''A'' ''D'' (OtherProtocol ''SEND_CLASSICAL'') CLASSICAL
     (Content ''hello'') None None"

definition hello_to_B :: packet where
  "hello_to_B = Packet ''A'' ''B'' (OtherProtocol ''SEND_CLASSICAL'') CLASSICAL
     (Content ''hello'') None None"

definition hello_to_self :: packet where
  "hello_to_self = Packet ''A'' ''A'' (OtherProtocol ''SEND_CLASSICAL'') CLASSICAL
     (Content ''hello'') None None"

definition epr_request :: packet where
  "epr_request = Packet ''A'' ''B'' REC_EPR SIGNAL (QidPayload ''id-7'') None None"



text \<open>The same request without a payload, and one of payload type QUANTUM.\<close>

definition epr_request_fresh :: packet where
  "epr_request_fresh = Packet ''A'' ''B'' REC_EPR SIGNAL NoPayload None None"

definition epr_request_quantum :: packet where
  "epr_request_quantum = Packet ''A'' ''B'' REC_EPR QUANTUM NoPayload None None"

lemma line_net_eval:
  "line_net = \<lparr>ARP = [''A'' \<mapsto> host_A, ''B'' \<mapsto> host_B, ''C'' \<mapsto> host_C],
     network = \<lparr>nodes = [''A'', ''B'', ''C''],
       edges = [((''A'', ''B''), 1), ((''B'', ''A''), 1), ((''B'', ''C''), 1), ((''C'', ''B''), 1)]\<rparr>,
     routing_algo = shortest_path, use_hop_by_hop = True, packet_queue = [],
     stop_thread = False, delay = 1 / 2\<rparr>"
  by (simp add: line_net_def host_A_def host_B_def host_C_def add_host_def
        update_network_graph_def Network_init_def DiGraph_def add_node_def has_edge_def)

lemma line_net_routes:
  "get_route line_net ''A'' ''A'' = Inr [''A'']"
  "get_route line_net ''A'' ''B'' = Inr [''A'', ''B'']"
  "get_route line_net ''A'' ''C'' = Inr [''A'', ''B'', ''C'']"
  "get_route line_net ''A'' ''D'' = Inl NodeNotFound"
  by (simp_all add: line_net_eval get_route_def shortest_path_def successors_def)











section \<open>The packet codec: properties\<close>

text \<open>
  C2. For every route of length at least 3 and every inner packet, \<^verbatim>\<open>_encode\<close>
  returns a packet whose sender is \<^verbatim>\<open>route[1]\<close>, whose payload is the inner packet
  as it was given, whose protocol is RELAY, whose payload type is SIGNAL, whose route is the
  whole route, whose TTL is the \<^verbatim>\<open>ttl\<close> argument (10 when the argument is left out),
  and whose receiver is the last element of the route in hop-by-hop mode and
  \<^verbatim>\<open>route[2]\<close> in source-routed mode.
\<close>

theorem encode_relay_envelope:
  assumes "3 \<le> length rt"
  shows "\<exists>e. encode nw rt inner ttl = Inr e
           \<and> sender e = rt ! 1
           \<and> payload e = Inner inner
           \<and> protocol e = RELAY
           \<and> payload_type e = SIGNAL
           \<and> route e = Some rt
           \<and> TTL e = Some ttl
           \<and> receiver e = (if use_hop_by_hop nw then last rt else rt ! 2)
           \<and> encode_default_ttl = 10"
  using assms by (simp add: encode_def encode_default_ttl_def)

theorem encode_relay_envelope_witness:
  "3 \<le> length [''A'', ''B'', ''C'']
   \<and> encode line_net [''A'', ''B'', ''C''] inner_packet encode_default_ttl
       = Inr (Packet ''B'' ''C'' RELAY SIGNAL (Inner inner_packet) (Some 10) (Some [''A'', ''B'', ''C'']))
   \<and> encode source_routed_net [''A'', ''B'', ''C'', ''D''] inner_packet 7
       = Inr (Packet ''B'' ''C'' RELAY SIGNAL (Inner inner_packet) (Some 7) (Some [''A'', ''B'', ''C'', ''D'']))"
proof -
  have len: "3 \<le> length [''A'', ''B'', ''C'']" by simp
  obtain e where e: "encode line_net [''A'', ''B'', ''C''] inner_packet encode_default_ttl = Inr e"
    using encode_relay_envelope [OF len, of line_net inner_packet encode_default_ttl] by blast
  show ?thesis
    using e by (simp add: encode_def encode_default_ttl_def line_net_def source_routed_net_def
        add_host_def update_network_graph_def Network_init_def)
qed

section \<open>Removing a host\<close>

text \<open>
  C7. \<^verbatim>\<open>remove_host\<close> deletes the entry of the host from the address table and
  nothing else: the topology keeps all its nodes and edges, those of the removed host
  included, every other entry of the address table and every other field of the Network
  stay as they were; for a host that is not in the address table the call changes nothing
  (the operation has no way to fail).
\<close>

theorem remove_host_only_ARP:
  "network (remove_host h nw) = network nw
   \<and> ARP (remove_host h nw) (host_id h) = None
   \<and> (\<forall>k. k \<noteq> host_id h \<longrightarrow> ARP (remove_host h nw) k = ARP nw k)
   \<and> remove_host h nw = nw\<lparr>ARP := (ARP nw)(host_id h := None)\<rparr>
   \<and> (host_id h \<notin> dom (ARP nw) \<longrightarrow> remove_host h nw = nw)"
proof -
  have absent: "host_id h \<notin> dom (ARP nw) \<Longrightarrow> (ARP nw)(host_id h := None) = ARP nw"
    by (auto simp: fun_eq_iff)
  show ?thesis
    using absent by (auto simp: remove_host_def)
qed

theorem remove_host_only_ARP_witness:
  "network (remove_host host_B line_net) = network line_net
   \<and> has_edge (network (remove_host host_B line_net)) ''A'' ''B''
   \<and> ''B'' \<in> set (nodes (network (remove_host host_B line_net)))
   \<and> ARP (remove_host host_B line_net) ''B'' = None
   \<and> ''A'' \<noteq> host_id host_B
   \<and> ARP (remove_host host_B line_net) ''A'' = ARP line_net ''A''
   \<and> ARP line_net ''A'' = Some host_A
   \<and> host_id host_B \<notin> dom (ARP (remove_host host_B line_net))
   \<and> remove_host host_B (remove_host host_B line_net) = remove_host host_B line_net"
proof -
  have ne: "''A'' \<noteq> host_id host_B"
    by (simp add: host_B_def)
  have gone: "host_id host_B \<notin> dom (ARP (remove_host host_B line_net))"
    using remove_host_only_ARP [of host_B line_net] by (simp add: domIff)
  have again: "remove_host host_B (remove_host host_B line_net) = remove_host host_B line_net"
    using remove_host_only_ARP [of host_B "remove_host host_B line_net"] gone by blast
  have keep: "ARP (remove_host host_B line_net) ''A'' = ARP line_net ''A''"
    using remove_host_only_ARP [of host_B line_net] ne by blast
  have graph: "network (remove_host host_B line_net) = network line_net"
    using remove_host_only_ARP [of host_B line_net] by blast
  have edge: "has_edge (network line_net) ''A'' ''B''"
    by (simp add: line_net_def host_A_def host_B_def host_C_def add_host_def
        update_network_graph_def Network_init_def DiGraph_def add_node_def has_edge_def)
  have node: "''B'' \<in> set (nodes (network line_net))"
    by (simp add: line_net_def host_A_def host_B_def host_C_def add_host_def
        update_network_graph_def Network_init_def DiGraph_def add_node_def has_edge_def)
  have a: "ARP line_net ''A'' = Some host_A"
    by (simp add: line_net_def host_A_def host_B_def host_C_def add_host_def
        update_network_graph_def)
  have b: "ARP (remove_host host_B line_net) ''B'' = None"
    using remove_host_only_ARP [of host_B line_net] by (simp add: host_B_def)
  show ?thesis
    using ne gone again keep graph edge node a b by simp
qed

section \<open>Asking whether two hosts share a pair\<close>

text \<open>
  C10, as amended. \<^verbatim>\<open>shares_epr(a, b)\<close> raises when \<open>a\<close> is not in the address
  table, and when \<open>b\<close> is not in it while the host of \<open>a\<close> reports a pair shared with
  \<open>b\<close>. When \<open>b\<close> is not in the address table and the host of \<open>a\<close> reports no pair, the
  answer is \<open>False\<close>, and the missing host is never consulted. When both are registered
  the answer is the conjunction of what the two hosts report.
\<close>

theorem shares_epr_registered:
  "(a \<notin> dom (ARP nw) \<longrightarrow> shares_epr ev nw a b = Inl AttributeError)
   \<and> (a \<in> dom (ARP nw) \<and> b \<notin> dom (ARP nw) \<longrightarrow>
        shares_epr ev nw a b = (if host_shares_epr ev a b then Inl AttributeError else Inr False))
   \<and> (a \<in> dom (ARP nw) \<and> b \<in> dom (ARP nw) \<longrightarrow>
        shares_epr ev nw a b = Inr (host_shares_epr ev a b \<and> host_shares_epr ev b a))"
  by (auto simp: shares_epr_def get_host_def Let_def domIff split: option.splits)

theorem shares_epr_registered_witness:
  "''D'' \<notin> dom (ARP line_net)
   \<and> shares_epr ready_env line_net ''D'' ''A'' = Inl AttributeError
   \<and> ''A'' \<in> dom (ARP line_net)
   \<and> shares_epr ready_env line_net ''A'' ''D'' = Inr False
   \<and> ''B'' \<in> dom (ARP line_net)
   \<and> shares_epr ready_env line_net ''A'' ''B'' = Inr False"
proof -
  have d: "''D'' \<notin> dom (ARP line_net)" and a: "''A'' \<in> dom (ARP line_net)"
    and b: "''B'' \<in> dom (ARP line_net)"
    by (simp_all add: line_net_def host_A_def host_B_def host_C_def add_host_def
        update_network_graph_def Network_init_def)
  have no: "\<not> host_shares_epr ready_env ''A'' ''D''" "\<not> host_shares_epr ready_env ''A'' ''B''"
    by (simp_all add: ready_env_def)
  show ?thesis
    using shares_epr_registered [of "''D''" line_net ready_env "''A''"]
      shares_epr_registered [of "''A''" line_net ready_env "''D''"]
      shares_epr_registered [of "''A''" line_net ready_env "''B''"]
      d a b no
    by simp
qed

text \<open>
  C10 as stated fails: with \<open>A\<close> registered, \<open>D\<close> absent, and the host of \<open>A\<close>
  reporting no shared pair, the query returns \<open>False\<close> and raises nothing.
\<close>

theorem shares_epr_absent_receiver_counterexample:
  "''D'' \<notin> dom (ARP line_net) \<and> shares_epr ready_env line_net ''A'' ''D'' = Inr False"
  by (simp add: shares_epr_def get_host_def ready_env_def line_net_def host_A_def host_B_def
      host_C_def add_host_def update_network_graph_def Network_init_def)

section \<open>Registering a host: properties\<close>

text \<open>The weight attribute of an edge, \<^verbatim>\<open>G[u][v]['weight']\<close>, when the edge exists.\<close>

definition edge_weight :: "digraph \<Rightarrow> hostid \<Rightarrow> hostid \<Rightarrow> int option" where
  "edge_weight G u v = map_of (edges G) (u, v)"

text \<open>
  One \<^verbatim>\<open>if not has_edge: add_edges_from\<close> step of the loop, and the edges that the
  loop is to provide for a host \<open>h\<close> with connections \<open>cs\<close>: \<open>(h, c)\<close> and \<open>(c, h)\<close>
  for every \<open>c\<close> of \<open>cs\<close>.
\<close>

definition ensure_edge :: "hostid \<Rightarrow> hostid \<Rightarrow> digraph \<Rightarrow> digraph" where
  "ensure_edge a b G = (if \<not> has_edge G a b then add_edges_from [(a, b, 1)] G else G)"

definition link_keys :: "hostid \<Rightarrow> hostid list \<Rightarrow> (hostid \<times> hostid) set" where
  "link_keys h cs = Pair h ` set cs \<union> (\<lambda>c. (c, h)) ` set cs"

lemma update_edges_Cons:
  "update_edges h (c # cs) G = update_edges h cs (ensure_edge c h (ensure_edge h c G))"
  by (simp add: ensure_edge_def Let_def del: add_edges_from.simps)

lemma has_edge_dom: "has_edge G u v \<longleftrightarrow> (u, v) \<in> dom (map_of (edges G))"
  by (simp add: has_edge_def dom_map_of_conv_image_fst)

lemma add_node_present: "n \<in> set (nodes G) \<Longrightarrow> add_node n G = G"
  by (simp add: add_node_def)

lemma edges_add_node: "edges (add_node n G) = edges G"
  by (simp add: add_node_def)

lemma nodes_add_node: "set (nodes (add_node n G)) = insert n (set (nodes G))"
  by (auto simp: add_node_def)

lemma map_ensure_edge:
  "map_of (edges (ensure_edge a b G)) k =
     (if k \<in> dom (map_of (edges G)) then map_of (edges G) k
      else if k = (a, b) then Some 1 else None)"
  by (auto simp: ensure_edge_def has_edge_dom update_conv' edges_add_node)

lemma dom_ensure_edge:
  "dom (map_of (edges (ensure_edge a b G))) = insert (a, b) (dom (map_of (edges G)))"
  by (auto simp: map_ensure_edge domIff split: if_splits)

lemma nodes_ensure_edge: "set (nodes G) \<subseteq> set (nodes (ensure_edge a b G))"
  by (auto simp: ensure_edge_def nodes_add_node)

lemma distinct_ensure_edge:
  "distinct (map fst (edges G)) \<Longrightarrow> distinct (map fst (edges (ensure_edge a b G)))"
  by (simp add: ensure_edge_def distinct_update edges_add_node)

lemma ensure_edge_present: "has_edge G a b \<Longrightarrow> ensure_edge a b G = G"
  by (simp add: ensure_edge_def)


lemma merge_weights:
  fixes A B C N :: bool and w :: "int option"
  shows "(if C \<or> B \<or> A
          then (if B \<or> A then (if A then w else if B then Some 1 else None)
                else if C then Some 1 else None)
          else if N then Some 1 else None)
         = (if A then w else if B \<or> C \<or> N then Some 1 else None)"
  by auto

lemma link_keys_Cons:
  "k \<in> link_keys h (c # cs) \<longleftrightarrow> k = (h, c) \<or> k = (c, h) \<or> k \<in> link_keys h cs"
  unfolding link_keys_def by (simp only: list.set image_insert) blast

lemma map_update_edges:
  "map_of (edges (update_edges h cs G)) k =
     (if k \<in> dom (map_of (edges G)) then map_of (edges G) k
      else if k \<in> link_keys h cs then Some 1 else None)"
proof (induction cs arbitrary: G)
  case Nil
  then show ?case by (auto simp: link_keys_def)
next
  case (Cons c cs)
  let ?G2 = "ensure_edge c h (ensure_edge h c G)"
  have "map_of (edges (update_edges h (c # cs) G)) k =
     (if k \<in> dom (map_of (edges ?G2)) then map_of (edges ?G2) k
      else if k \<in> link_keys h cs then Some 1 else None)"
    unfolding update_edges_Cons by (rule Cons.IH)
  then show ?case
    by (simp only: dom_ensure_edge map_ensure_edge insert_iff link_keys_Cons merge_weights)
qed

lemma has_edge_update_edges:
  "has_edge (update_edges h cs G) u v \<longleftrightarrow> has_edge G u v \<or> (u, v) \<in> link_keys h cs"
  unfolding has_edge_dom domIff map_update_edges by simp

lemma weight_update_edges:
  "edge_weight (update_edges h cs G) u v =
     (if has_edge G u v then edge_weight G u v
      else if (u, v) \<in> link_keys h cs then Some 1 else None)"
  unfolding edge_weight_def has_edge_dom by (rule map_update_edges)

lemma nodes_update_edges:
  "set (nodes G) \<subseteq> set (nodes (update_edges h cs G))"
proof (induction cs arbitrary: G)
  case Nil
  then show ?case by simp
next
  case (Cons c cs)
  have "set (nodes G) \<subseteq> set (nodes (ensure_edge c h (ensure_edge h c G)))"
    using nodes_ensure_edge [of G h c] nodes_ensure_edge [of "ensure_edge h c G" c h] by blast
  then show ?case
    unfolding update_edges_Cons using Cons.IH by blast
qed

lemma distinct_update_edges:
  "distinct (map fst (edges G)) \<Longrightarrow> distinct (map fst (edges (update_edges h cs G)))"
proof (induction cs arbitrary: G)
  case Nil
  then show ?case by simp
next
  case (Cons c cs)
  show ?case
    unfolding update_edges_Cons
    by (intro Cons.IH distinct_ensure_edge Cons.prems)
qed

lemma update_edges_present:
  "\<forall>c\<in>set cs. has_edge G h c \<and> has_edge G c h \<Longrightarrow> update_edges h cs G = G"
proof (induction cs arbitrary: G)
  case Nil
  then show ?case by simp
next
  case (Cons c cs)
  then show ?case
    unfolding update_edges_Cons by (simp add: ensure_edge_present)
qed

lemma link_keys_member:
  "c \<in> set cs \<Longrightarrow> (h, c) \<in> link_keys h cs \<and> (c, h) \<in> link_keys h cs"
  unfolding link_keys_def by blast

lemma has_edge_add_host:
  "has_edge (network (add_host p nw)) u v \<longleftrightarrow>
     has_edge (network nw) u v \<or> (u, v) \<in> link_keys (host_id p) (connections p)"
  by (simp add: add_host_def update_network_graph_def has_edge_update_edges)
    (simp add: has_edge_def edges_add_node)

lemma weight_add_host:
  "edge_weight (network (add_host p nw)) u v =
     (if has_edge (network nw) u v then edge_weight (network nw) u v
      else if (u, v) \<in> link_keys (host_id p) (connections p) then Some 1 else None)"
  by (simp add: add_host_def update_network_graph_def weight_update_edges)
    (simp add: has_edge_def edge_weight_def edges_add_node)

lemma node_add_host: "host_id p \<in> set (nodes (network (add_host p nw)))"
  using nodes_update_edges [of "add_node (host_id p) (network nw)" "host_id p" "connections p"]
  by (auto simp: add_host_def update_network_graph_def nodes_add_node)

lemma distinct_add_host:
  "distinct (map fst (edges (network nw))) \<Longrightarrow>
   distinct (map fst (edges (network (add_host p nw))))"
  by (simp add: add_host_def update_network_graph_def distinct_update_edges edges_add_node)

lemma network_add_host_again:
  assumes "host_id p' = host_id p" "connections p' = connections p"
  shows "network (add_host p' (add_host p nw)) = network (add_host p nw)"
proof -
  let ?G = "network (add_host p nw)"
  have e: "\<forall>c\<in>set (connections p). has_edge ?G (host_id p) c \<and> has_edge ?G c (host_id p)"
    by (simp add: has_edge_add_host link_keys_member)
  have "network (add_host p' (add_host p nw)) =
          update_edges (host_id p) (connections p) (add_node (host_id p) ?G)"
    using assms by (simp add: add_host_def update_network_graph_def)
  also have "\<dots> = ?G"
    using node_add_host [of p nw] e by (simp add: add_node_present update_edges_present)
  finally show ?thesis .
qed

lemma add_host_again: "add_host p (add_host p nw) = add_host p nw"
proof -
  have "network (add_host p (add_host p nw)) = network (add_host p nw)"
    by (rule network_add_host_again) simp_all
  then show ?thesis
    by (simp add: add_host_def update_network_graph_def)
qed

text \<open>
  C5. \<^verbatim>\<open>add_host\<close> registers the host in the address table, adds its node to the
  topology, and for every declared connection provides the edges in both directions: an
  edge that is missing is added with weight 1, an edge that exists is skipped and keeps its
  weight, and no other edge appears. Adding the same host again (or a host with the same
  identifier and the same connections) leaves the topology as it is, the keys of the edges
  stay free of duplicates, and the edges in both directions are there whichever of the two
  end points is added first.
\<close>

theorem add_host_registers_and_links:
  "ARP (add_host p nw) = (ARP nw)(host_id p \<mapsto> p)
   \<and> host_id p \<in> set (nodes (network (add_host p nw)))
   \<and> (\<forall>c\<in>set (connections p).
         has_edge (network (add_host p nw)) (host_id p) c
         \<and> has_edge (network (add_host p nw)) c (host_id p))
   \<and> (\<forall>u v. edge_weight (network (add_host p nw)) u v =
         (if has_edge (network nw) u v then edge_weight (network nw) u v
          else if (u, v) \<in> link_keys (host_id p) (connections p) then Some 1 else None))
   \<and> add_host p (add_host p nw) = add_host p nw
   \<and> (\<forall>p'. host_id p' = host_id p \<and> connections p' = connections p \<longrightarrow>
         network (add_host p' (add_host p nw)) = network (add_host p nw))
   \<and> (distinct (map fst (edges (network nw))) \<longrightarrow>
         distinct (map fst (edges (network (add_host p nw)))))
   \<and> (\<forall>x. host_id x \<in> set (connections p) \<longrightarrow>
         has_edge (network (add_host x (add_host p nw))) (host_id p) (host_id x)
         \<and> has_edge (network (add_host x (add_host p nw))) (host_id x) (host_id p)
         \<and> has_edge (network (add_host p (add_host x nw))) (host_id p) (host_id x)
         \<and> has_edge (network (add_host p (add_host x nw))) (host_id x) (host_id p))"
proof -
  have arp: "ARP (add_host p nw) = (ARP nw)(host_id p \<mapsto> p)"
    by (simp add: add_host_def update_network_graph_def)
  have links: "\<forall>c\<in>set (connections p).
         has_edge (network (add_host p nw)) (host_id p) c
         \<and> has_edge (network (add_host p nw)) c (host_id p)"
    by (simp add: has_edge_add_host link_keys_member)
  have sym: "\<forall>x. host_id x \<in> set (connections p) \<longrightarrow>
         has_edge (network (add_host x (add_host p nw))) (host_id p) (host_id x)
         \<and> has_edge (network (add_host x (add_host p nw))) (host_id x) (host_id p)
         \<and> has_edge (network (add_host p (add_host x nw))) (host_id p) (host_id x)
         \<and> has_edge (network (add_host p (add_host x nw))) (host_id x) (host_id p)"
    by (simp add: has_edge_add_host link_keys_member)
  show ?thesis
    using arp node_add_host links weight_add_host add_host_again network_add_host_again
      distinct_add_host sym
    by blast
qed

theorem add_host_registers_and_links_witness:
  "ARP (add_host host_B (add_host host_A Network_init)) ''B'' = Some host_B
   \<and> ''B'' \<in> set (nodes (network (add_host host_B (add_host host_A Network_init))))
   \<and> ''C'' \<in> set (connections host_B)
   \<and> has_edge (network (add_host host_B (add_host host_A Network_init))) ''B'' ''C''
   \<and> has_edge (network (add_host host_B (add_host host_A Network_init))) ''C'' ''B''
   \<and> edge_weight (network (add_host host_B (add_host host_A Network_init))) ''C'' ''B'' = Some 1
   \<and> add_host host_B (add_host host_B (add_host host_A Network_init))
       = add_host host_B (add_host host_A Network_init)
   \<and> distinct (map fst (edges (network (add_host host_A Network_init))))
   \<and> distinct (map fst (edges (network (add_host host_B (add_host host_A Network_init)))))
   \<and> edges (network (add_host host_B (add_host host_A Network_init)))
       = [((''A'', ''B''), 1), ((''B'', ''A''), 1), ((''B'', ''C''), 1), ((''C'', ''B''), 1)]"
proof -
  note T = add_host_registers_and_links [of host_B "add_host host_A Network_init"]
  have hid: "host_id host_B = ''B''"
    by (simp add: host_B_def)
  have c: "''C'' \<in> set (connections host_B)"
    by (simp add: host_B_def)
  have arp: "ARP (add_host host_B (add_host host_A Network_init)) ''B'' = Some host_B"
    using T hid by simp
  have node: "''B'' \<in> set (nodes (network (add_host host_B (add_host host_A Network_init))))"
    using T hid by simp
  have e: "has_edge (network (add_host host_B (add_host host_A Network_init))) ''B'' ''C''
      \<and> has_edge (network (add_host host_B (add_host host_A Network_init))) ''C'' ''B''"
    using T c hid by metis
  have again: "add_host host_B (add_host host_B (add_host host_A Network_init))
       = add_host host_B (add_host host_A Network_init)"
    using T by blast
  have d0: "distinct (map fst (edges (network (add_host host_A Network_init))))"
    by (simp add: host_A_def add_host_def update_network_graph_def Network_init_def DiGraph_def
        add_node_def has_edge_def)
  have d1: "distinct (map fst (edges (network (add_host host_B (add_host host_A Network_init)))))"
    using T d0 by blast
  have es: "edges (network (add_host host_B (add_host host_A Network_init)))
       = [((''A'', ''B''), 1), ((''B'', ''A''), 1), ((''B'', ''C''), 1), ((''C'', ''B''), 1)]"
    by (simp add: host_A_def host_B_def add_host_def update_network_graph_def Network_init_def
        DiGraph_def add_node_def has_edge_def)
  have w: "edge_weight (network (add_host host_B (add_host host_A Network_init))) ''C'' ''B'' = Some 1"
    by (simp add: es edge_weight_def)
  show ?thesis
    using arp node c e w again d0 d1 es by simp
qed

section \<open>The dispatch loop: properties\<close>






lemma compute_route_set_payload:
  "compute_route nw (set_payload pl packet) = compute_route nw packet"
  by (simp add: compute_route_def set_payload_def split: option.split)






lemma quantum_prepass_short_route:
  assumes "get_route nw (sender packet) (receiver packet) = Inr rt" "length rt < 2"
  shows "quantum_prepass ev nw packet s = (Inr (payload packet), s)"
proof -
  have "[0..<length rt - 1] = []"
    using assms(2) by simp
  then show ?thesis
    using assms(1) by (simp add: quantum_prepass_def route_quantum_info_def)
qed

lemma process_packet_short_route:
  assumes "compute_route nw packet = Inr rt" "length rt < 2"
    and "quantum_prepass ev nw packet s = (Inr pl, s1)"
  shows "process_packet ev nw packet s = (None, log_error (LogErrorInNetwork Exception) s1)"
  using assms
  by (simp add: process_packet_def try_block_def compute_route_set_payload)

lemma process_queue_step:
  assumes "\<not> stop_thread nw" "process_packet ev nw packet s = (None, s1)"
  shows "process_queue ev (nw\<lparr>packet_queue := packet # packet_queue nw\<rparr>) s = process_queue ev nw s1"
  using assms by (subst process_queue.simps) simp

text \<open>
  A route with fewer than two elements makes the \<^verbatim>\<open>try\<close> block raise, and the last
  handler logs it. In hop-by-hop mode, for a packet that is not a relay envelope, and for a
  packet without a quantum payload, that is all that happens: one error line, nothing
  handed to any host, and the loop goes on with the rest of the queue.
\<close>

lemma short_route_dropped:
  assumes "compute_route nw packet = Inr rt" and "length rt < 2"
    and "use_hop_by_hop nw \<or> protocol packet \<noteq> RELAY \<or> payload_type packet \<noteq> QUANTUM"
  shows "process_packet ev nw packet s = (None, log_error (LogErrorInNetwork Exception) s)"
    and "\<not> stop_thread nw \<Longrightarrow>
           process_queue ev (nw\<lparr>packet_queue := packet # packet_queue nw\<rparr>) s
             = process_queue ev nw (log_error (LogErrorInNetwork Exception) s)"
proof -
  have "quantum_prepass ev nw packet s = (Inr (payload packet), s)"
  proof (cases "payload_type packet = QUANTUM")
    case True
    then have "get_route nw (sender packet) (receiver packet) = Inr rt"
      using assms(1,3) by (auto simp: compute_route_def split: if_splits)
    then show ?thesis
      using assms(2) by (rule quantum_prepass_short_route)
  next
    case False
    then show ?thesis by (simp add: quantum_prepass_def)
  qed
  with assms(1,2) show pp: "process_packet ev nw packet s = (None, log_error (LogErrorInNetwork Exception) s)"
    by (rule process_packet_short_route)
  show "process_queue ev (nw\<lparr>packet_queue := packet # packet_queue nw\<rparr>) s
             = process_queue ev nw (log_error (LogErrorInNetwork Exception) s)"
    if "\<not> stop_thread nw"
    using that pp by (rule process_queue_step)
qed


text \<open>
  C1 claims that every error raised while a dequeued packet is processed is caught inside
  the loop, errors of the routing of a QUANTUM payload included. The code calls
  \<^verbatim>\<open>_route_quantum_info\<close> ahead of the \<^verbatim>\<open>try\<close> block: on the line network, a
  qubit sent to the unknown host \<open>D\<close> makes \<^verbatim>\<open>get_route\<close> raise \<^verbatim>\<open>NodeNotFound\<close>
  there, the exception leaves the loop, and the message for \<open>B\<close> behind it is never
  processed. The same destination in a classical packet is caught by the handler, and the
  message for \<open>B\<close> is delivered.
\<close>

theorem quantum_routing_error_escapes:
  "process_queue ready_env (send hello_to_B (send quantum_to_D line_net)) io_init
     = (Crashed NodeNotFound, line_net\<lparr>packet_queue := [hello_to_B]\<rparr>, io_init)
   \<and> process_queue ready_env (send hello_to_B (send classical_to_D line_net)) io_init
     = (Idle, line_net,
        \<lparr>trace = [RecPacket ''B'' (Inner hello_to_B)],
         errlog = [LogError ''route couldn't be calculated, node doesn't exist'']\<rparr>)"
proof -
  let ?logged = "\<lparr>trace = [], errlog = [LogError ''route couldn't be calculated, node doesn't exist'']\<rparr>"
  let ?done = "\<lparr>trace = [RecPacket ''B'' (Inner hello_to_B)],
         errlog = [LogError ''route couldn't be calculated, node doesn't exist'']\<rparr>"
  have ns: "\<And>x. \<not> stop_thread (line_net\<lparr>packet_queue := x\<rparr>)" and q: "packet_queue line_net = []"
    by (simp_all add: line_net_eval)
  have net: "\<And>x. ARP (line_net\<lparr>packet_queue := x\<rparr>) = ARP line_net"
    "\<And>x a b. get_route (line_net\<lparr>packet_queue := x\<rparr>) a b = get_route line_net a b"
    "\<And>x. use_hop_by_hop (line_net\<lparr>packet_queue := x\<rparr>)"
    by (simp_all add: get_route_def line_net_eval)
  have bad: "process_packet ready_env (line_net\<lparr>packet_queue := [hello_to_B]\<rparr>) quantum_to_D io_init
               = (Some NodeNotFound, io_init)"
    by (simp add: process_packet_def quantum_prepass_def route_quantum_info_def net
        line_net_routes quantum_to_D_def)
  have caught: "process_packet ready_env (line_net\<lparr>packet_queue := [hello_to_B]\<rparr>) classical_to_D io_init
               = (None, ?logged)"
    by (simp add: process_packet_def quantum_prepass_def try_block_def compute_route_def net
        line_net_routes classical_to_D_def set_payload_def log_error_def io_init_def)
  have good: "process_packet ready_env (line_net\<lparr>packet_queue := []\<rparr>) hello_to_B ?logged
               = (None, ?done)"
    by (simp add: process_packet_def quantum_prepass_def try_block_def compute_route_def net
        line_net_routes hello_to_B_def set_payload_def deliver_def)
      (simp add: line_net_eval emit_def)
  have same: "line_net\<lparr>packet_queue := []\<rparr> = line_net"
    using q by simp
  have idle: "process_queue ready_env (line_net\<lparr>packet_queue := []\<rparr>) ?done = (Idle, line_net, ?done)"
    by (subst process_queue.simps) (simp add: line_net_eval)
  have last: "process_queue ready_env (line_net\<lparr>packet_queue := [hello_to_B]\<rparr>) ?logged
                = (Idle, line_net, ?done)"
    by (subst process_queue.simps) (simp add: ns good idle)
  have crash: "process_queue ready_env (line_net\<lparr>packet_queue := [quantum_to_D, hello_to_B]\<rparr>) io_init
                = (Crashed NodeNotFound, line_net\<lparr>packet_queue := [hello_to_B]\<rparr>, io_init)"
    by (subst process_queue.simps) (simp add: ns bad)
  have cont: "process_queue ready_env (line_net\<lparr>packet_queue := [classical_to_D, hello_to_B]\<rparr>) io_init
                = (Idle, line_net, ?done)"
    by (subst process_queue.simps) (simp add: ns caught last)
  show ?thesis
    using crash cont by (simp add: send_def q)
qed

text \<open>
  C4, as amended. A dequeued packet with protocol \<^verbatim>\<open>REC_EPR\<close> and a payload type
  other than QUANTUM, whose route has length 2, whose sender and receiver are both in the
  address table, and whose payload is \<^verbatim>\<open>None\<close> or carries an identifier: the backend
  of the sender creates one pair with the receiver (addressed by its name), the sender
  files it under the identifier found in the payload when there is a payload and lets the
  host mint one otherwise, and the receiver is handed the dequeued packet with the payload
  replaced by the identifier that filing returned, and nothing else, every other field as
  it was. Nothing is logged. A host that files a pair under the identifier it was given
  returns that identifier.
\<close>

theorem rec_epr_direct_delivery:
  assumes proto: "protocol packet = REC_EPR"
    and rt: "compute_route nw packet = Inr rt" "length rt = 2"
    and kind: "payload_type packet \<noteq> QUANTUM"
    and hs: "ARP nw (sender packet) = Some hs"
    and hr: "ARP nw (receiver packet) = Some hr"
    and given: "payload packet = NoPayload \<and> given = None
                \<or> payload_q_id (payload packet) = Inr i \<and> given = Some i"
  shows "let name = Some (cqc_name hr);
             qb = cqc_createEPR ev (trace s) (sender packet) name;
             rid = host_add_epr ev (trace s @ [CreateEPR (sender packet) name])
                     (sender packet) (receiver packet) qb given
         in process_packet ev nw packet s =
              (None,
               \<lparr>trace = trace s @
                  [CreateEPR (sender packet) name,
                   AddEpr (sender packet) (receiver packet) qb given,
                   RecPacket (receiver packet)
                     (Inner (Packet (sender packet) (receiver packet) REC_EPR
                               (payload_type packet) (QidPayload rid) (TTL packet) (route packet)))],
                errlog = errlog s\<rparr>)
            \<and> ((\<forall>tr a b u j. host_add_epr ev tr a b u (Some j) = j) \<longrightarrow> given = Some i \<longrightarrow> rid = i)"
proof -
  have pre: "quantum_prepass ev nw packet s = (Inr (payload packet), s)"
    using kind by (simp add: quantum_prepass_def)
  have same: "set_payload (payload packet) packet = packet"
    by (simp add: set_payload_def)
  have tb: "process_packet ev nw packet s =
      (case deliver ev nw packet s of (Some e, s2) \<Rightarrow> (None, except_handler e s2)
       | (None, s2) \<Rightarrow> (None, s2))"
    using rt by (simp add: process_packet_def pre same try_block_def)
  have np: "payload packet \<noteq> NoPayload" if "payload_q_id (payload packet) = Inr i"
    using that by (cases "payload packet") simp_all
  show ?thesis
    using given
  proof (elim disjE conjE)
    assume "payload packet = NoPayload" "given = None"
    then show ?thesis
      unfolding tb using proto hs hr
      by (simp add: deliver_def rec_epr_direct_def get_host_def get_host_name_def domIff
          Let_def emit_def set_payload_def)
  next
    assume i: "payload_q_id (payload packet) = Inr i" and g: "given = Some i"
    show ?thesis
      unfolding tb using proto hs hr i g np [OF i]
      by (simp add: deliver_def rec_epr_direct_def get_host_def get_host_name_def domIff
          Let_def emit_def set_payload_def)
  qed
qed

theorem rec_epr_direct_delivery_witness:
  "protocol epr_request = REC_EPR
   \<and> compute_route line_net epr_request = Inr [''A'', ''B'']
   \<and> length [''A'', ''B''] = 2
   \<and> payload_type epr_request \<noteq> QUANTUM
   \<and> ARP line_net (sender epr_request) = Some host_A
   \<and> ARP line_net (receiver epr_request) = Some host_B
   \<and> payload_q_id (payload epr_request) = Inr ''id-7''
   \<and> process_packet ready_env line_net epr_request io_init =
       (None,
        \<lparr>trace = [CreateEPR ''A'' (Some ''Bob''),
                  AddEpr ''A'' ''B'' 0 (Some ''id-7''),
                  RecPacket ''B'' (Inner (Packet ''A'' ''B'' REC_EPR SIGNAL (QidPayload ''id-7'') None None))],
         errlog = []\<rparr>)
   \<and> protocol epr_request_fresh = REC_EPR
   \<and> compute_route line_net epr_request_fresh = Inr [''A'', ''B'']
   \<and> payload_type epr_request_fresh \<noteq> QUANTUM
   \<and> ARP line_net (sender epr_request_fresh) = Some host_A
   \<and> ARP line_net (receiver epr_request_fresh) = Some host_B
   \<and> payload epr_request_fresh = NoPayload
   \<and> process_packet ready_env line_net epr_request_fresh io_init =
       (None,
        \<lparr>trace = [CreateEPR ''A'' (Some ''Bob''),
                  AddEpr ''A'' ''B'' 0 None,
                  RecPacket ''B'' (Inner (Packet ''A'' ''B'' REC_EPR SIGNAL (QidPayload ''fresh-id'') None None))],
         errlog = []\<rparr>)"
proof -
  have p: "protocol epr_request = REC_EPR" and k: "payload_type epr_request \<noteq> QUANTUM"
    and i: "payload_q_id (payload epr_request) = Inr ''id-7''"
    by (simp_all add: epr_request_def)
  have r: "compute_route line_net epr_request = Inr [''A'', ''B'']"
    using line_net_routes(2) by (simp add: compute_route_def epr_request_def line_net_eval)
  have l: "length [''A'', ''B''] = 2"
    by simp
  have a: "ARP line_net (sender epr_request) = Some host_A"
    and b: "ARP line_net (receiver epr_request) = Some host_B"
    by (simp_all add: epr_request_def line_net_eval)
  have g: "payload epr_request = NoPayload \<and> Some ''id-7'' = None
           \<or> payload_q_id (payload epr_request) = Inr ''id-7'' \<and> Some ''id-7'' = Some ''id-7''"
    using i by simp
  have one: "process_packet ready_env line_net epr_request io_init =
       (None,
        \<lparr>trace = [CreateEPR ''A'' (Some ''Bob''),
                  AddEpr ''A'' ''B'' 0 (Some ''id-7''),
                  RecPacket ''B'' (Inner (Packet ''A'' ''B'' REC_EPR SIGNAL (QidPayload ''id-7'') None None))],
         errlog = []\<rparr>)"
    using rec_epr_direct_delivery [OF p r l k a b g, of ready_env io_init]
    by (simp add: Let_def ready_env_def io_init_def epr_request_def host_B_def)
  have p': "protocol epr_request_fresh = REC_EPR" and k': "payload_type epr_request_fresh \<noteq> QUANTUM"
    and n': "payload epr_request_fresh = NoPayload"
    by (simp_all add: epr_request_fresh_def)
  have r': "compute_route line_net epr_request_fresh = Inr [''A'', ''B'']"
    using line_net_routes(2) by (simp add: compute_route_def epr_request_fresh_def line_net_eval)
  have a': "ARP line_net (sender epr_request_fresh) = Some host_A"
    and b': "ARP line_net (receiver epr_request_fresh) = Some host_B"
    by (simp_all add: epr_request_fresh_def line_net_eval)
  have g': "payload epr_request_fresh = NoPayload \<and> (None :: qid option) = None
           \<or> payload_q_id (payload epr_request_fresh) = Inr ''unused'' \<and> None = Some ''unused''"
    using n' by simp
  have two: "process_packet ready_env line_net epr_request_fresh io_init =
       (None,
        \<lparr>trace = [CreateEPR ''A'' (Some ''Bob''),
                  AddEpr ''A'' ''B'' 0 None,
                  RecPacket ''B'' (Inner (Packet ''A'' ''B'' REC_EPR SIGNAL (QidPayload ''fresh-id'') None None))],
         errlog = []\<rparr>)"
    using rec_epr_direct_delivery [OF p' r' l k' a' b' g', of ready_env io_init]
    by (simp add: Let_def ready_env_def io_init_def epr_request_fresh_def host_B_def)
  show ?thesis
    by (intro conjI p r l k a b i one p' r' k' a' b' n' two)
qed

text \<open>
  C4 as stated fails on packets that the claim does not exclude. With \<open>B\<close> removed from
  the address table the topology keeps its edges and the route from \<open>A\<close> to \<open>B\<close> still
  has length 2: the pair is created and filed, then \<^verbatim>\<open>self.ARP[receiver]\<close> raises
  \<^verbatim>\<open>KeyError\<close>, which is logged, and no packet is delivered. And a request of payload
  type QUANTUM without a payload makes the quantum routing raise ahead of the \<^verbatim>\<open>try\<close>
  block: no pair is created and the exception leaves the loop.
\<close>

lemma removed_B_eval:
  "remove_host host_B line_net = line_net\<lparr>ARP := [''A'' \<mapsto> host_A, ''C'' \<mapsto> host_C]\<rparr>"
  by (auto simp: remove_host_def line_net_eval host_B_def fun_eq_iff)

theorem rec_epr_not_delivered_counterexample:
  "protocol epr_request = REC_EPR
   \<and> compute_route (remove_host host_B line_net) epr_request = Inr [''A'', ''B'']
   \<and> process_packet ready_env (remove_host host_B line_net) epr_request io_init =
       (None,
        \<lparr>trace = [CreateEPR ''A'' None, AddEpr ''A'' ''B'' 0 (Some ''id-7'')],
         errlog = [LogErrorInNetwork KeyError]\<rparr>)
   \<and> protocol epr_request_quantum = REC_EPR
   \<and> compute_route line_net epr_request_quantum = Inr [''A'', ''B'']
   \<and> process_packet ready_env line_net epr_request_quantum io_init = (Some TypeError, io_init)"
proof -
  have p: "protocol epr_request = REC_EPR" "protocol epr_request_quantum = REC_EPR"
    by (simp_all add: epr_request_def epr_request_quantum_def)
  have g: "get_route (remove_host host_B line_net) ''A'' ''B'' = Inr [''A'', ''B'']"
    unfolding removed_B_eval using line_net_routes(2) by (simp add: get_route_def)
  have hop: "use_hop_by_hop (remove_host host_B line_net)"
    and arp: "ARP (remove_host host_B line_net) ''A'' = Some host_A"
      "ARP (remove_host host_B line_net) ''B'' = None"
    unfolding removed_B_eval by (simp_all add: line_net_eval)
  have r: "compute_route (remove_host host_B line_net) epr_request = Inr [''A'', ''B'']"
    using g hop by (simp add: compute_route_def epr_request_def)
  have one: "process_packet ready_env (remove_host host_B line_net) epr_request io_init =
       (None,
        \<lparr>trace = [CreateEPR ''A'' None, AddEpr ''A'' ''B'' 0 (Some ''id-7'')],
         errlog = [LogErrorInNetwork KeyError]\<rparr>)"
    using r arp
    by (simp add: process_packet_def quantum_prepass_def try_block_def set_payload_def
        epr_request_def deliver_def rec_epr_direct_def get_host_def get_host_name_def domIff
        ready_env_def io_init_def emit_def log_error_def)
  have r2: "compute_route line_net epr_request_quantum = Inr [''A'', ''B'']"
    using line_net_routes(2) by (simp add: compute_route_def epr_request_quantum_def line_net_eval)
  have u: "[0..<length [''A'', ''B''] - 1] = [0]"
    by (simp add: upt_rec)
  have two: "process_packet ready_env line_net epr_request_quantum io_init = (Some TypeError, io_init)"
    using line_net_routes(2)
    by (simp add: process_packet_def quantum_prepass_def route_quantum_info_def
        epr_request_quantum_def u)
  show ?thesis
    by (intro conjI p r one r2 two)
qed

subsection \<open>The TTL of a relay envelope\<close>


lemma set_payload_twice: "set_payload a (set_payload b p) = set_payload a p"
  by (simp add: set_payload_def)










lemma rec_epr_direct_ttl:
  "fst (rec_epr_direct ev nw (Packet a b c d e t r) s)
     = map_sum id (\<lambda>p. Packet (sender p) (receiver p) (protocol p) (payload_type p) (payload p) t (route p))
         (fst (rec_epr_direct ev nw (Packet a b c d e t' r) s))
   \<and> snd (rec_epr_direct ev nw (Packet a b c d e t r) s)
       = snd (rec_epr_direct ev nw (Packet a b c d e t' r) s)"
  by (simp add: rec_epr_direct_def Let_def set_payload_def split: option.split sum.split)











section \<open>The swap orchestrator: properties\<close>
























section \<open>Routing: properties\<close>

text \<open>
  Two nodes are connected when a chain of edges of the topology leads from the first to
  the second.
\<close>

definition connected :: "digraph \<Rightarrow> hostid \<Rightarrow> hostid \<Rightarrow> bool" where
  "connected G u v = ((u, v) \<in> {(a, b). has_edge G a b}\<^sup>*)"

text \<open>
  The paths in the queue of the search are reversed: each node is reached by an edge from
  the node after it.
\<close>

fun rwalk :: "digraph \<Rightarrow> hostid list \<Rightarrow> bool" where
  "rwalk G (v # u # p) = (has_edge G u v \<and> rwalk G (u # p))"
| "rwalk G p = True"

lemma successors_iff: "v \<in> set (successors G u) \<longleftrightarrow> has_edge G u v"
  by (force simp: successors_def has_edge_def)

lemma rwalk_nth:
  "rwalk G p \<Longrightarrow> Suc i < length p \<Longrightarrow> has_edge G (p ! Suc i) (p ! i)"
proof (induction G p arbitrary: i rule: rwalk.induct)
  case (1 G v u p)
  then show ?case
    by (cases i) simp_all
qed simp_all

lemma rwalk_rev:
  assumes "rwalk G p" and "Suc i < length p"
  shows "has_edge G (rev p ! i) (rev p ! Suc i)"
proof -
  let ?j = "length p - Suc (Suc i)"
  have j: "Suc ?j < length p" "length p - Suc i = Suc ?j"
    using assms(2) by arith+
  have "rev p ! i = p ! Suc ?j" "rev p ! Suc i = p ! ?j"
    using assms(2) j by (simp_all add: rev_nth)
  then show ?thesis
    using rwalk_nth [OF assms(1) j(1)] by simp
qed

text \<open>
  A path that the search returns is one of the queue, turned round; the paths of the queue
  stay reversed walks that end at the source.
\<close>

lemma bfs_sound:
  "bfs G t qu vis = Some r \<Longrightarrow> \<forall>p\<in>set qu. p \<noteq> [] \<longrightarrow> last p = s \<and> rwalk G p \<Longrightarrow>
     \<exists>p. r = rev p \<and> p \<noteq> [] \<and> hd p = t \<and> last p = s \<and> rwalk G p"
proof (induction G t qu vis rule: bfs.induct)
  case (1 G target visited)
  then show ?case by simp
next
  case (2 G target queue visited)
  then show ?case by simp
next
  case (3 G target u p queue visited)
  show ?case
  proof (cases "u = target")
    case True
    then have "r = rev (u # p)"
      using 3(2) by simp
    moreover have "last (u # p) = s \<and> rwalk G (u # p)"
      using 3(3) by simp
    ultimately show ?thesis
      using True by (intro exI [of _ "u # p"]) simp
  next
    case False
    let ?new = "remdups (filter (\<lambda>v. v \<notin> set visited) (successors G u))"
    have run: "bfs G target (queue @ map (\<lambda>v. v # u # p) ?new) (?new @ visited) = Some r"
      using 3(2) False by (simp add: Let_def)
    have old: "last (u # p) = s" "rwalk G (u # p)"
      using 3(3) by simp_all
    have inv: "\<forall>x\<in>set (queue @ map (\<lambda>v. v # u # p) ?new). x \<noteq> [] \<longrightarrow> last x = s \<and> rwalk G x"
    proof (intro ballI impI)
      fix x assume x: "x \<in> set (queue @ map (\<lambda>v. v # u # p) ?new)"
      then consider "x \<in> set queue" | v where "v \<in> set (successors G u)" "x = v # u # p"
        by auto
      then show "last x = s \<and> rwalk G x" if "x \<noteq> []"
      proof cases
        case 1
        then show ?thesis using 3(3) that by simp
      next
        case 2
        then show ?thesis using old by (simp add: successors_iff)
      qed
    qed
    show ?thesis
      using "3.IH" [OF False refl run inv] .
  qed
qed

text \<open>
  When the search gives up, the nodes it has visited lie in a set that is closed under the
  edges and does not hold the target.
\<close>

lemma bfs_complete:
  "bfs G t qu vis = None \<Longrightarrow>
   \<forall>v\<in>set vis. (\<exists>p. v # p \<in> set qu) \<or> (v \<noteq> t \<and> set (successors G v) \<subseteq> set vis) \<Longrightarrow>
     \<exists>V. set vis \<subseteq> V \<and> t \<notin> V \<and> (\<forall>v\<in>V. set (successors G v) \<subseteq> V)"
proof (induction G t qu vis rule: bfs.induct)
  case (1 G target visited)
  then have "\<forall>v\<in>set visited. v \<noteq> target \<and> set (successors G v) \<subseteq> set visited"
    by simp
  then show ?case
    by (intro exI [of _ "set visited"]) blast
next
  case (2 G target queue visited)
  have "\<forall>v\<in>set visited. (\<exists>p. v # p \<in> set queue) \<or> (v \<noteq> target \<and> set (successors G v) \<subseteq> set visited)"
    using 2(3) by simp
  then show ?case
    using 2(1) 2(2) by simp
next
  case (3 G target u p queue visited)
  let ?new = "remdups (filter (\<lambda>v. v \<notin> set visited) (successors G u))"
  have ne: "u \<noteq> target"
    using 3(2) by (auto split: if_splits)
  have run: "bfs G target (queue @ map (\<lambda>v. v # u # p) ?new) (?new @ visited) = None"
    using 3(2) ne by (simp add: Let_def)
  have succ_u: "set (successors G u) \<subseteq> set (?new @ visited)"
    by auto
  have inv: "\<forall>v\<in>set (?new @ visited).
      (\<exists>p'. v # p' \<in> set (queue @ map (\<lambda>v. v # u # p) ?new))
      \<or> (v \<noteq> target \<and> set (successors G v) \<subseteq> set (?new @ visited))"
  proof
    fix v assume v: "v \<in> set (?new @ visited)"
    show "(\<exists>p'. v # p' \<in> set (queue @ map (\<lambda>v. v # u # p) ?new))
      \<or> (v \<noteq> target \<and> set (successors G v) \<subseteq> set (?new @ visited))"
    proof (cases "v \<in> set ?new")
      case True
      then have "v # u # p \<in> set (queue @ map (\<lambda>v. v # u # p) ?new)"
        by (simp add: image_iff)
      then show ?thesis by blast
    next
      case False
      then have "v \<in> set visited" using v by auto
      then consider "\<exists>p'. v # p' \<in> set ((u # p) # queue)"
        | "v \<noteq> target \<and> set (successors G v) \<subseteq> set visited"
        using 3(3) by blast
      then show ?thesis
      proof cases
        case 1
        then consider "v = u" | "\<exists>p'. v # p' \<in> set queue"
          by auto
        then show ?thesis
        proof cases
          case 1
          then show ?thesis using ne succ_u by blast
        next
          case 2
          then show ?thesis by auto
        qed
      next
        case 2
        then show ?thesis by auto
      qed
    qed
  qed
  obtain V where V: "set (?new @ visited) \<subseteq> V" "target \<notin> V" "\<forall>v\<in>V. set (successors G v) \<subseteq> V"
    using "3.IH" [OF ne refl run inv] by blast
  have "set visited \<subseteq> V"
    using V(1) by simp
  then show ?case
    using V(2,3) by blast
qed

lemma closed_reach:
  assumes "connected G u v" and "u \<in> V" and "\<forall>x\<in>V. set (successors G x) \<subseteq> V"
  shows "v \<in> V"
proof -
  have "(u, v) \<in> {(a, b). has_edge G a b}\<^sup>*"
    using assms(1) by (simp add: connected_def)
  then show ?thesis
  proof (induction rule: rtrancl_induct)
    case base
    show ?case by (rule assms(2))
  next
    case (step y z)
    then have "z \<in> set (successors G y)"
      by (simp add: successors_iff)
    then show ?case
      using step.IH assms(3) by blast
  qed
qed


text \<open>
  C8. Under the default routing algorithm, for two nodes of the topology of which the
  second is connected to the first, \<^verbatim>\<open>get_route\<close> returns a route: it starts at the
  source, ends at the destination, and every two consecutive hosts of it are joined by an
  edge of the topology.
\<close>

theorem get_route_valid:
  assumes algo: "routing_algo nw = shortest_path"
    and src: "source \<in> set (nodes (network nw))"
    and dst: "dest \<in> set (nodes (network nw))"
    and conn: "connected (network nw) source dest"
  shows "\<exists>r. get_route nw source dest = Inr r \<and> r \<noteq> [] \<and> hd r = source \<and> last r = dest
           \<and> (\<forall>i. Suc i < length r \<longrightarrow> has_edge (network nw) (r ! i) (r ! Suc i))"
proof -
  let ?G = "network nw"
  have route: "get_route nw source dest =
      (case bfs ?G dest [[source]] [source] of None \<Rightarrow> Inl NetworkXNoPath | Some p \<Rightarrow> Inr p)"
    using src dst by (simp add: get_route_def algo shortest_path_def)
  show ?thesis
  proof (cases "bfs ?G dest [[source]] [source]")
    case None
    have "\<forall>v\<in>set [source]. (\<exists>p. v # p \<in> set [[source]])
            \<or> (v \<noteq> dest \<and> set (successors ?G v) \<subseteq> set [source])"
      by simp
    from bfs_complete [OF None this]
    obtain V where V: "set [source] \<subseteq> V" "dest \<notin> V" "\<forall>v\<in>V. set (successors ?G v) \<subseteq> V"
      by blast
    have "source \<in> V"
      using V(1) by simp
    then have "dest \<in> V"
      using closed_reach [OF conn _ V(3)] by blast
    then show ?thesis
      using V(2) by simp
  next
    case (Some r)
    have "\<forall>p\<in>set [[source]]. p \<noteq> [] \<longrightarrow> last p = source \<and> rwalk ?G p"
      by simp
    from bfs_sound [OF Some this]
    obtain p where p: "r = rev p" "p \<noteq> []" "hd p = dest" "last p = source" "rwalk ?G p"
      by blast
    have a: "get_route nw source dest = Inr r"
      by (simp only: route Some option.case)
    have b: "r \<noteq> []"
      using p(1,2) by simp
    have c: "hd r = source"
      using p(1,2,4) by (simp add: hd_rev)
    have d: "last r = dest"
      using p(1,2,3) by (simp add: last_rev)
    have e: "\<forall>i. Suc i < length r \<longrightarrow> has_edge ?G (r ! i) (r ! Suc i)"
      using rwalk_rev [OF p(5)] p(1) by simp
    show ?thesis
      by (intro exI [of _ r] conjI a b c d e)
  qed
qed

lemma line_net_connected: "connected (network line_net) ''A'' ''C''"
proof -
  let ?R = "{(a, b). has_edge (network line_net) a b}"
  have "(''A'', ''B'') \<in> ?R" "(''B'', ''C'') \<in> ?R"
    by (simp_all add: line_net_eval has_edge_def)
  then have "(''A'', ''C'') \<in> ?R\<^sup>*"
    by (rule converse_rtrancl_into_rtrancl [OF _ r_into_rtrancl])
  then show ?thesis
    by (simp only: connected_def)
qed

theorem get_route_valid_witness:
  "routing_algo line_net = shortest_path
   \<and> ''A'' \<in> set (nodes (network line_net)) \<and> ''C'' \<in> set (nodes (network line_net))
   \<and> connected (network line_net) ''A'' ''C''
   \<and> get_route line_net ''A'' ''C'' = Inr [''A'', ''B'', ''C'']
   \<and> has_edge (network line_net) ''A'' ''B'' \<and> has_edge (network line_net) ''B'' ''C''
   \<and> (\<exists>r. get_route line_net ''A'' ''C'' = Inr r \<and> r \<noteq> [] \<and> hd r = ''A'' \<and> last r = ''C''
           \<and> (\<forall>i. Suc i < length r \<longrightarrow> has_edge (network line_net) (r ! i) (r ! Suc i)))"
proof -
  have a: "routing_algo line_net = shortest_path"
    by (simp add: line_net_eval)
  have s: "''A'' \<in> set (nodes (network line_net))"
    by (simp add: line_net_eval)
  have d: "''C'' \<in> set (nodes (network line_net))"
    by (simp add: line_net_eval)
  have r: "get_route line_net ''A'' ''C'' = Inr [''A'', ''B'', ''C'']"
    by (rule line_net_routes)
  have e1: "has_edge (network line_net) ''A'' ''B''"
    by (simp add: line_net_eval has_edge_def)
  have e2: "has_edge (network line_net) ''B'' ''C''"
    by (simp add: line_net_eval has_edge_def)
  show ?thesis
    by (intro conjI a s d line_net_connected r e1 e2 get_route_valid [OF a s d line_net_connected])
qed

end
